theory Spec2Isabelle
  imports Main
begin

section \<open>Python strings\<close>

text \<open>
  A Python \<open>str\<close> is a sequence of Unicode code points. Paths, labels, file contents
  and printed lines are all of this type. ASCII literals of the script are written with
  \<open>str\<close>; the symbols the script prints outside ASCII are given by their code points.
\<close>

type_synonym codepoint = nat
type_synonym pystr = "codepoint list"

definition str :: "string \<Rightarrow> pystr" where
  "str s = map of_char s"

text \<open>\<open>s.startswith(p)\<close>, used to define the substring test.\<close>

fun startswith :: "pystr \<Rightarrow> pystr \<Rightarrow> bool" where
  "startswith s [] = True"
| "startswith [] (p # ps) = False"
| "startswith (c # cs) (p # ps) = (c = p \<and> startswith cs ps)"

text \<open>\<open>needle in content\<close> on strings: the needle occurs at some position.\<close>

fun py_in :: "pystr \<Rightarrow> pystr \<Rightarrow> bool" where
  "py_in needle [] = (needle = [])"
| "py_in needle (c # cs) = (startswith (c # cs) needle \<or> py_in needle cs)"

text \<open>\<open>sep.join(xs)\<close>.\<close>

fun join :: "pystr \<Rightarrow> pystr list \<Rightarrow> pystr" where
  "join sep [] = []"
| "join sep [x] = x"
| "join sep (x # y # ys) = x @ sep @ join sep (y # ys)"

definition check_mark :: pystr where "check_mark = [0x2705]"
definition cross_mark :: pystr where "cross_mark = [0x274C]"
definition magnifier :: pystr where "magnifier = [0x1F50D]"
definition folder :: pystr where "folder = [0x1F4C1]"
definition plug :: pystr where "plug = [0x1F50C]"
definition gear :: pystr where "gear = [0x2699, 0xFE0F]"
definition crane :: pystr where "crane = [0x1F3D7, 0xFE0F]"
definition party :: pystr where "party = [0x1F389]"
definition bullet :: pystr where "bullet = [0x2022]"
definition newline :: pystr where "newline = [0x0A]"

section \<open>The regular expression of the interface check\<close>

text \<open>
  The pattern \<open>public\s+interface\s+{interface_name}\<close> is a sequence of literal
  characters and two \<open>\s+\<close>. In a \<open>str\<close> pattern \<open>\s\<close> matches the Unicode
  whitespace characters. The interface name is pasted into the pattern unescaped; a
  name without a character that is special in \<open>re\<close> syntax stands for itself, which
  is the case of every name \<open>main\<close> passes. Other names are outside what is
  modelled here (\<open>interface_pattern\<close> gives \<open>None\<close>).
\<close>

datatype re_item = Lit codepoint | Spaces

definition isspace :: "codepoint \<Rightarrow> bool" where
  "isspace c \<longleftrightarrow>
     (0x09 \<le> c \<and> c \<le> 0x0D) \<or> (0x1C \<le> c \<and> c \<le> 0x20) \<or> c = 0x85 \<or> c = 0xA0 \<or>
     c = 0x1680 \<or> (0x2000 \<le> c \<and> c \<le> 0x200A) \<or> c = 0x2028 \<or> c = 0x2029 \<or>
     c = 0x202F \<or> c = 0x205F \<or> c = 0x3000"

fun re_match :: "re_item list \<Rightarrow> pystr \<Rightarrow> bool" where
  "re_match [] s = True"
| "re_match (Lit a # r) [] = False"
| "re_match (Lit a # r) (c # cs) = (c = a \<and> re_match r cs)"
| "re_match (Spaces # r) [] = False"
| "re_match (Spaces # r) (c # cs) = (isspace c \<and> (re_match (Spaces # r) cs \<or> re_match r cs))"

text \<open>\<open>re.search\<close>: a match starting at some position of the content.\<close>

fun re_search :: "re_item list \<Rightarrow> pystr \<Rightarrow> bool" where
  "re_search p [] = re_match p []"
| "re_search p (c # cs) = (re_match p (c # cs) \<or> re_search p cs)"

definition re_special :: "codepoint \<Rightarrow> bool" where
  "re_special c \<longleftrightarrow>
     c \<in> set [0x2E, 0x5E, 0x24, 0x2A, 0x2B, 0x3F, 0x7B, 0x7D, 0x5B, 0x5D, 0x5C, 0x7C, 0x28, 0x29]"

definition interface_pattern :: "pystr \<Rightarrow> re_item list option" where
  "interface_pattern interface_name =
     (if list_ex re_special interface_name then None
      else Some (map Lit (str ''public'') @ [Spaces] @ map Lit (str ''interface'') @ [Spaces] @
                 map Lit interface_name))"

section \<open>The world: files and standard output\<close>

text \<open>
  What the script can observe of a path: nothing there (\<open>os.path.exists\<close> is false), a
  file that \<open>open(path, 'r')\<close> and \<open>read()\<close> turn into a string, or something that
  exists and cannot be read as text: a directory, a file without read permission, a file
  whose bytes do not decode. \<open>print\<close> appends its argument to standard output (one
  entry per call). The script has no \<open>try\<close>: an exception of a library call ends
  the run.
\<close>

datatype node = Text pystr | Directory | NoReadPermission | Undecodable

datatype error = FileNotFoundError | IsADirectoryError | PermissionError | UnicodeDecodeError
  | UnmodelledPattern

record world =
  files :: "pystr \<rightharpoonup> node"
  stdout :: "pystr list"

type_synonym 'a io = "world \<Rightarrow> (error + 'a) \<times> world"

definition return_io :: "'a \<Rightarrow> 'a io" where
  "return_io x w = (Inr x, w)"

definition raise :: "error \<Rightarrow> 'a io" where
  "raise e w = (Inl e, w)"

definition bind :: "'a io \<Rightarrow> ('a \<Rightarrow> 'b io) \<Rightarrow> 'b io" where
  "bind m f w = (case m w of (Inl e, w') \<Rightarrow> (Inl e, w') | (Inr x, w') \<Rightarrow> f x w')"

definition print :: "pystr \<Rightarrow> unit io" where
  "print s w = (Inr (), w\<lparr>stdout := stdout w @ [s]\<rparr>)"

definition os_path_exists :: "pystr \<Rightarrow> bool io" where
  "os_path_exists p w = (Inr (files w p \<noteq> None), w)"

text \<open>\<open>with open(p, 'r') as f: content = f.read()\<close>\<close>

definition read_text :: "pystr \<Rightarrow> pystr io" where
  "read_text p w =
     (case files w p of
        None \<Rightarrow> (Inl FileNotFoundError, w)
      | Some (Text c) \<Rightarrow> (Inr c, w)
      | Some Directory \<Rightarrow> (Inl IsADirectoryError, w)
      | Some NoReadPermission \<Rightarrow> (Inl PermissionError, w)
      | Some Undecodable \<Rightarrow> (Inl UnicodeDecodeError, w))"

section \<open>The checks\<close>

definition check_file_exists :: "pystr \<Rightarrow> pystr \<Rightarrow> bool io" where
  "check_file_exists file_path description =
     bind (os_path_exists file_path) (\<lambda>ex.
       if ex then
         bind (print (check_mark @ str '' '' @ description @ str '': '' @ file_path))
           (\<lambda>_. return_io True)
       else
         bind (print (cross_mark @ str '' '' @ description @ str '': '' @ file_path @
                      str '' - NOT FOUND''))
           (\<lambda>_. return_io False))"

definition check_interface_definition :: "pystr \<Rightarrow> pystr \<Rightarrow> bool io" where
  "check_interface_definition file_path interface_name =
     bind (os_path_exists file_path) (\<lambda>ex.
       if \<not> ex then
         bind (print (cross_mark @ str '' Interface '' @ interface_name @ str '': File '' @
                      file_path @ str '' not found''))
           (\<lambda>_. return_io False)
       else
         bind (read_text file_path) (\<lambda>content.
           case interface_pattern interface_name of
             None \<Rightarrow> raise UnmodelledPattern
           | Some pat \<Rightarrow>
               if re_search pat content then
                 bind (print (check_mark @ str '' Interface '' @ interface_name @
                              str '': Properly defined''))
                   (\<lambda>_. return_io True)
               else
                 bind (print (cross_mark @ str '' Interface '' @ interface_name @
                              str '': Not properly defined''))
                   (\<lambda>_. return_io False)))"

definition required_packages :: "pystr list" where
  "required_packages =
     [str ''Microsoft.VisualStudio.SDK'',
      str ''Microsoft.VSSDK.BuildTools'',
      str ''Microsoft.VisualStudio.Shell.Framework'',
      str ''LibGit2Sharp'',
      str ''Newtonsoft.Json'']"

definition check_csproj_references :: "pystr \<Rightarrow> bool io" where
  "check_csproj_references csproj_path =
     bind (os_path_exists csproj_path) (\<lambda>ex.
       if \<not> ex then
         bind (print (cross_mark @ str '' Project file not found: '' @ csproj_path))
           (\<lambda>_. return_io False)
       else
         bind (read_text csproj_path) (\<lambda>content.
           let missing_packages = filter (\<lambda>package. \<not> py_in package content) required_packages
           in if missing_packages = [] then
                bind (print (check_mark @ str '' All required NuGet packages are referenced''))
                  (\<lambda>_. return_io True)
              else
                bind (print (cross_mark @ str '' Missing NuGet packages: '' @
                             join (str '', '') missing_packages))
                  (\<lambda>_. return_io False)))"

definition required_elements :: "pystr list" where
  "required_elements =
     [str ''DisplayName'', str ''Description'', str ''Identity'', str ''Installation'',
      str ''Assets'']"

definition check_vsix_manifest :: "pystr \<Rightarrow> bool io" where
  "check_vsix_manifest manifest_path =
     bind (os_path_exists manifest_path) (\<lambda>ex.
       if \<not> ex then
         bind (print (cross_mark @ str '' VSIX manifest not found: '' @ manifest_path))
           (\<lambda>_. return_io False)
       else
         bind (read_text manifest_path) (\<lambda>content.
           let missing_elements =
                 filter (\<lambda>element. \<not> py_in (str ''<'' @ element) content) required_elements
           in if missing_elements = [] then
                bind (print (check_mark @ str '' VSIX manifest is properly configured''))
                  (\<lambda>_. return_io True)
              else
                bind (print (cross_mark @ str '' VSIX manifest missing elements: '' @
                             join (str '', '') missing_elements))
                  (\<lambda>_. return_io False)))"

section \<open>The orchestrator\<close>

definition base_path :: pystr where
  "base_path = str ''AiderVSExtension''"

definition core_files :: "(pystr \<times> pystr) list" where
  "core_files =
     [(base_path @ str ''/AiderVSExtension.csproj'', str ''Project file''),
      (base_path @ str ''/AiderVSExtensionPackage.cs'', str ''Main package class''),
      (base_path @ str ''/source.extension.vsixmanifest'', str ''VSIX manifest''),
      (base_path @ str ''/Properties/AssemblyInfo.cs'', str ''Assembly info''),
      (base_path @ str ''/Services/ServiceContainer.cs'', str ''Service container'')]"

definition interfaces :: "(pystr \<times> pystr) list" where
  "interfaces =
     [(str ''IAiderService'', str ''Core Aider AI service interface''),
      (str ''IConfigurationService'', str ''Configuration management interface''),
      (str ''IFileContextService'', str ''File and solution context interface''),
      (str ''IAIModelManager'', str ''AI model management interface''),
      (str ''ICompletionProvider'', str ''AI completion provider interface''),
      (str ''IErrorHandler'', str ''Error handling interface''),
      (str ''IMessageRenderer'', str ''Message rendering interface'')]"

definition interface_file :: "pystr \<Rightarrow> pystr" where
  "interface_file interface_name = base_path @ str ''/Interfaces/'' @ interface_name @ str ''.cs''"

definition csproj_file :: pystr where
  "csproj_file = base_path @ str ''/AiderVSExtension.csproj''"

definition manifest_file :: pystr where
  "manifest_file = base_path @ str ''/source.extension.vsixmanifest''"

definition package_file :: pystr where
  "package_file = base_path @ str ''/AiderVSExtensionPackage.cs''"

text \<open>The loop over \<open>core_files\<close>; \<open>acp\<close> is \<open>all_checks_passed\<close>.\<close>

fun core_files_loop :: "(pystr \<times> pystr) list \<Rightarrow> bool \<Rightarrow> bool io" where
  "core_files_loop [] acp = return_io acp"
| "core_files_loop ((file_path, description) # rest) acp =
     bind (check_file_exists file_path description) (\<lambda>ok.
       core_files_loop rest (if \<not> ok then False else acp))"

text \<open>The loop over \<open>interfaces\<close>.\<close>

fun interfaces_loop :: "(pystr \<times> pystr) list \<Rightarrow> bool \<Rightarrow> bool io" where
  "interfaces_loop [] acp = return_io acp"
| "interfaces_loop ((interface_name, description) # rest) acp =
     bind (check_interface_definition (interface_file interface_name) interface_name) (\<lambda>ok.
       interfaces_loop rest (if \<not> ok then False else acp))"

text \<open>The two calls under \<open># Check project configuration\<close>.\<close>

definition project_configuration :: "bool \<Rightarrow> bool io" where
  "project_configuration acp =
     bind (check_csproj_references csproj_file) (\<lambda>ok.
       let acp = (if \<not> ok then False else acp) in
       bind (check_vsix_manifest manifest_file) (\<lambda>ok.
         return_io (if \<not> ok then False else acp)))"

text \<open>
  The block under \<open># Check service container integration\<close>, after its header line:
  when the package file does not exist nothing is printed and the flag is left as it is.
\<close>

definition service_container_integration :: "bool \<Rightarrow> bool io" where
  "service_container_integration acp =
     bind (os_path_exists package_file) (\<lambda>ex.
       if ex then
         bind (read_text package_file) (\<lambda>content.
           if py_in (str ''ServiceContainer'') content \<and> py_in (str ''InitializeAsync'') content
           then
             bind (print (check_mark @
                          str '' Service container is properly integrated in main package''))
               (\<lambda>_. return_io acp)
           else
             bind (print (cross_mark @ str '' Service container integration incomplete''))
               (\<lambda>_. return_io False))
       else return_io acp)"

definition rule_line :: pystr where
  "rule_line = replicate 60 (of_char CHR ''='')"

text \<open>The block under \<open># Final result\<close>.\<close>

definition final_result :: "bool \<Rightarrow> bool io" where
  "final_result acp =
     bind (print (newline @ rule_line)) (\<lambda>_.
       if acp then
         bind (print (party @ str '' All validation checks PASSED!'')) (\<lambda>_.
         bind (print (check_mark @
                 str '' Task 1 requirements have been successfully implemented:'')) (\<lambda>_.
         bind (print (str ''   '' @ bullet @
                 str '' VSIX project with proper manifest and package configuration'')) (\<lambda>_.
         bind (print (str ''   '' @ bullet @
                 str '' Core interfaces defined for services and components'')) (\<lambda>_.
         bind (print (str ''   '' @ bullet @
                 str '' Dependency injection container set up for service management'')) (\<lambda>_.
           return_io acp)))))
       else
         bind (print (cross_mark @ str '' Some validation checks FAILED!'')) (\<lambda>_.
         bind (print (str ''Please review the issues above and fix them.'')) (\<lambda>_.
           return_io acp)))"

definition main :: "bool io" where
  "main =
     bind (print (magnifier @ str '' Validating Visual Studio Extension Project Structure''))
       (\<lambda>_.
     bind (print rule_line) (\<lambda>_.
     bind (print (newline @ folder @ str '' Core Project Files:'')) (\<lambda>_.
     bind (core_files_loop core_files True) (\<lambda>acp.
     bind (print (newline @ plug @ str '' Interface Definitions:'')) (\<lambda>_.
     bind (interfaces_loop interfaces acp) (\<lambda>acp.
     bind (print (newline @ gear @ str '' Project Configuration:'')) (\<lambda>_.
     bind (project_configuration acp) (\<lambda>acp.
     bind (print (newline @ crane @ str '' Service Container Integration:'')) (\<lambda>_.
     bind (service_container_integration acp) (\<lambda>acp.
       final_result acp))))))))))"

text \<open>
  The \<open>__main__\<close> block: the exit status of the process. An exception that leaves
  \<open>main\<close> ends the interpreter with status 1 (the traceback goes to standard error).
\<close>

definition exit_status :: "world \<Rightarrow> nat" where
  "exit_status w = (case fst (main w) of Inr success \<Rightarrow> (if success then 0 else 1) | Inl e \<Rightarrow> 1)"

section \<open>Observing a run\<close>

text \<open>The lines an operation appends to standard output when started in \<open>w\<close>.\<close>

definition emitted :: "'a io \<Rightarrow> world \<Rightarrow> pystr list" where
  "emitted m w = drop (length (stdout w)) (stdout (snd (m w)))"

text \<open>
  An operation is uniform when it leaves the files alone, only appends to standard
  output, and its result and the lines it appends depend on the files only.
\<close>

definition uniform :: "'a io \<Rightarrow> bool" where
  "uniform m \<longleftrightarrow>
     (\<forall>w. files (snd (m w)) = files w \<and>
          take (length (stdout w)) (stdout (snd (m w))) = stdout w) \<and>
     (\<forall>w w'. files w = files w' \<longrightarrow> fst (m w) = fst (m w') \<and> emitted m w = emitted m w')"

text \<open>The needle occurs in the content as a contiguous substring.\<close>

definition occurs_in :: "pystr \<Rightarrow> pystr \<Rightarrow> bool" where
  "occurs_in needle content \<longleftrightarrow> (\<exists>pre post. content = pre @ needle @ post)"

text \<open>
  The paths \<open>main\<close> opens for reading, and the worlds in which each of them is either
  absent or a readable text file.
\<close>

definition opened_files :: "pystr list" where
  "opened_files =
     map (\<lambda>(interface_name, description). interface_file interface_name) interfaces @
     [csproj_file, manifest_file, package_file]"

fun readable_node :: "node option \<Rightarrow> bool" where
  "readable_node None = True"
| "readable_node (Some (Text c)) = True"
| "readable_node (Some Directory) = False"
| "readable_node (Some NoReadPermission) = False"
| "readable_node (Some Undecodable) = False"

definition readable :: "world \<Rightarrow> bool" where
  "readable w \<longleftrightarrow> list_all (\<lambda>p. readable_node (files w p)) opened_files"

section \<open>Sample worlds\<close>

definition empty_world :: world where
  "empty_world = \<lparr>files = Map.empty, stdout = []\<rparr>"

definition good_files :: "(pystr \<times> node) list" where
  "good_files =
     [(str ''AiderVSExtension/AiderVSExtension.csproj'',
         Text (str ''Microsoft.VisualStudio.SDK Microsoft.VSSDK.BuildTools Microsoft.VisualStudio.Shell.Framework LibGit2Sharp Newtonsoft.Json'')),
      (str ''AiderVSExtension/AiderVSExtensionPackage.cs'',
         Text (str ''ServiceContainer InitializeAsync'')),
      (str ''AiderVSExtension/source.extension.vsixmanifest'',
         Text (str ''<DisplayName><Description><Identity><Installation><Assets>'')),
      (str ''AiderVSExtension/Properties/AssemblyInfo.cs'', Text []),
      (str ''AiderVSExtension/Services/ServiceContainer.cs'', Text []),
      (str ''AiderVSExtension/Interfaces/IAiderService.cs'',
         Text (str ''public interface '' @ str ''IAiderService'')),
      (str ''AiderVSExtension/Interfaces/IConfigurationService.cs'',
         Text (str ''public interface '' @ str ''IConfigurationService'')),
      (str ''AiderVSExtension/Interfaces/IFileContextService.cs'',
         Text (str ''public interface '' @ str ''IFileContextService'')),
      (str ''AiderVSExtension/Interfaces/IAIModelManager.cs'',
         Text (str ''public interface '' @ str ''IAIModelManager'')),
      (str ''AiderVSExtension/Interfaces/ICompletionProvider.cs'',
         Text (str ''public interface '' @ str ''ICompletionProvider'')),
      (str ''AiderVSExtension/Interfaces/IErrorHandler.cs'',
         Text (str ''public interface '' @ str ''IErrorHandler'')),
      (str ''AiderVSExtension/Interfaces/IMessageRenderer.cs'',
         Text (str ''public interface '' @ str ''IMessageRenderer''))]"

text \<open>Every file of the checklist is there and passes its checks.\<close>

definition good_world :: world where
  "good_world = \<lparr>files = map_of good_files, stdout = []\<rparr>"

text \<open>Only the project file path exists, and it is a directory.\<close>

definition csproj_dir_world :: world where
  "csproj_dir_world = \<lparr>files = [csproj_file \<mapsto> Directory], stdout = []\<rparr>"

text \<open>Only the manifest exists, and it may not be read.\<close>

definition manifest_locked_world :: world where
  "manifest_locked_world = \<lparr>files = [manifest_file \<mapsto> NoReadPermission], stdout = []\<rparr>"

text \<open>A project file that names four of the packages, and the fifth in another case.\<close>

definition partial_csproj_content :: pystr where
  "partial_csproj_content =
     str ''Microsoft.VisualStudio.SDK Microsoft.VSSDK.BuildTools Microsoft.VisualStudio.Shell.Framework LibGit2Sharp newtonsoft.json''"

definition partial_csproj_world :: world where
  "partial_csproj_world = \<lparr>files = [csproj_file \<mapsto> Text partial_csproj_content], stdout = []\<rparr>"

text \<open>A manifest with two of the element names not behind an opening bracket.\<close>

definition partial_manifest_content :: pystr where
  "partial_manifest_content = str ''<DisplayName><Description>Identity<Installation>Assets''"

definition partial_manifest_world :: world where
  "partial_manifest_world =
     \<lparr>files = [manifest_file \<mapsto> Text partial_manifest_content], stdout = []\<rparr>"

text \<open>A package file with only one of the two markers.\<close>

definition one_marker_content :: pystr where
  "one_marker_content = str ''new ServiceContainer()''"

definition one_marker_world :: world where
  "one_marker_world = \<lparr>files = [package_file \<mapsto> Text one_marker_content], stdout = []\<rparr>"

text \<open>An interface file that declares a longer interface, across a line break.\<close>

definition longer_interface_world :: world where
  "longer_interface_world =
     \<lparr>files = [str ''IFoo.cs'' \<mapsto>
                 Text (str ''// x'' @ newline @ str ''public'' @ newline @ str ''interface'' @
                       str ''  '' @ str ''IFoo'' @ str ''Bar'' @ str '' { }'')],
      stdout = []\<rparr>"

section \<open>Uniform operations\<close>

lemma uniform_files: "uniform m \<Longrightarrow> files (snd (m w)) = files w"
  unfolding uniform_def by blast

lemma uniform_stdout: "uniform m \<Longrightarrow> stdout (snd (m w)) = stdout w @ emitted m w"
proof -
  assume "uniform m"
  then have "take (length (stdout w)) (stdout (snd (m w))) = stdout w"
    by (simp add: uniform_def)
  then have "stdout w @ drop (length (stdout w)) (stdout (snd (m w))) = stdout (snd (m w))"
    using append_take_drop_id[of "length (stdout w)" "stdout (snd (m w))"] by simp
  then show ?thesis by (simp add: emitted_def)
qed

lemma uniform_snd:
  assumes "uniform m"
  shows "snd (m w) = w\<lparr>stdout := stdout w @ emitted m w\<rparr>"
  by (rule world.equality)
     (simp_all add: uniform_files[OF assms, of w] uniform_stdout[OF assms, of w])

lemma uniform_fst: "uniform m \<Longrightarrow> files w = files w' \<Longrightarrow> fst (m w) = fst (m w')"
  unfolding uniform_def by blast

lemma uniform_emitted: "uniform m \<Longrightarrow> files w = files w' \<Longrightarrow> emitted m w = emitted m w'"
  unfolding uniform_def by blast

lemma uniform_return [simp, intro]: "uniform (return_io x)"
  by (simp add: uniform_def return_io_def emitted_def)

lemma uniform_raise [simp, intro]: "uniform (raise e)"
  by (simp add: uniform_def raise_def emitted_def)

lemma uniform_print [simp, intro]: "uniform (print s)"
  by (simp add: uniform_def print_def emitted_def)

lemma uniform_exists [simp, intro]: "uniform (os_path_exists p)"
  by (simp add: uniform_def os_path_exists_def emitted_def)

lemma uniform_read [simp, intro]: "uniform (read_text p)"
  by (simp add: uniform_def read_text_def emitted_def split: option.splits node.splits)

lemma bind_Inr:
  assumes "uniform m" "fst (m w) = Inr x"
  shows "bind m f w = f x (w\<lparr>stdout := stdout w @ emitted m w\<rparr>)"
proof -
  have "m w = (Inr x, w\<lparr>stdout := stdout w @ emitted m w\<rparr>)"
    by (rule prod_eqI) (simp_all add: assms(2) uniform_snd[OF assms(1)])
  then show ?thesis by (simp add: bind_def)
qed

lemma bind_Inl:
  assumes "uniform m" "fst (m w) = Inl e"
  shows "bind m f w = (Inl e, w\<lparr>stdout := stdout w @ emitted m w\<rparr>)"
proof -
  have "m w = (Inl e, w\<lparr>stdout := stdout w @ emitted m w\<rparr>)"
    by (rule prod_eqI) (simp_all add: assms(2) uniform_snd[OF assms(1)])
  then show ?thesis by (simp add: bind_def)
qed

lemma bind_step:
  assumes m: "uniform m" and f: "\<And>x. uniform (f x)"
  shows "fst (bind m f w) = (case fst (m w) of Inl e \<Rightarrow> Inl e | Inr x \<Rightarrow> fst (f x w))"
    and "files (snd (bind m f w)) = files w"
    and "stdout (snd (bind m f w)) =
          stdout w @ emitted m w @ (case fst (m w) of Inl e \<Rightarrow> [] | Inr x \<Rightarrow> emitted (f x) w)"
proof -
  let ?w' = "w\<lparr>stdout := stdout w @ emitted m w\<rparr>"
  have fw: "files ?w' = files w" by simp
  have a: "fst (m w) = Inr x \<Longrightarrow> fst (f x ?w') = fst (f x w)" for x
    by (rule uniform_fst[OF f fw])
  have b: "fst (m w) = Inr x \<Longrightarrow> emitted (f x) ?w' = emitted (f x) w" for x
    by (rule uniform_emitted[OF f fw])
  have c: "files (snd (f x ?w')) = files w" for x
    by (simp add: uniform_files[OF f])
  have d: "stdout (snd (f x ?w')) = (stdout w @ emitted m w) @ emitted (f x) ?w'" for x
    by (simp add: uniform_stdout[OF f])
  show "fst (bind m f w) = (case fst (m w) of Inl e \<Rightarrow> Inl e | Inr x \<Rightarrow> fst (f x w))"
    by (cases "fst (m w)") (simp_all add: bind_Inl[OF m] bind_Inr[OF m] a)
  show "files (snd (bind m f w)) = files w"
    by (cases "fst (m w)") (simp_all add: bind_Inl[OF m] bind_Inr[OF m] c)
  show "stdout (snd (bind m f w)) =
          stdout w @ emitted m w @ (case fst (m w) of Inl e \<Rightarrow> [] | Inr x \<Rightarrow> emitted (f x) w)"
    by (cases "fst (m w)") (simp_all add: bind_Inl[OF m] bind_Inr[OF m] d b)
qed

lemma bind_emitted:
  assumes m: "uniform m" and f: "\<And>x. uniform (f x)"
  shows "emitted (bind m f) w =
           emitted m w @ (case fst (m w) of Inl e \<Rightarrow> [] | Inr x \<Rightarrow> emitted (f x) w)"
  by (simp add: emitted_def[of "bind m f"] bind_step(3)[OF m f])

lemma uniform_bind [intro]:
  assumes m: "uniform m" and f: "\<And>x. uniform (f x)"
  shows "uniform (bind m f)"
  unfolding uniform_def
proof (intro conjI allI impI)
  fix w show "files (snd (bind m f w)) = files w"
    by (rule bind_step(2)[OF m f])
next
  fix w show "take (length (stdout w)) (stdout (snd (bind m f w))) = stdout w"
    by (simp add: bind_step(3)[OF m f])
next
  fix w w' :: world assume eq: "files w = files w'"
  have r: "fst (m w) = fst (m w')" by (rule uniform_fst[OF m eq])
  show "fst (bind m f w) = fst (bind m f w')"
  proof (cases "fst (m w')")
    case (Inl e)
    then show ?thesis using r by (simp add: bind_step(1)[OF m f])
  next
    case (Inr x)
    then show ?thesis using r uniform_fst[OF f eq, of x] by (simp add: bind_step(1)[OF m f])
  qed
next
  fix w w' :: world assume eq: "files w = files w'"
  have r: "fst (m w) = fst (m w')" by (rule uniform_fst[OF m eq])
  have e: "emitted m w = emitted m w'" by (rule uniform_emitted[OF m eq])
  show "emitted (bind m f) w = emitted (bind m f) w'"
  proof (cases "fst (m w')")
    case (Inl e')
    then show ?thesis using r e by (simp add: bind_emitted[OF m f])
  next
    case (Inr x)
    then show ?thesis using r e uniform_emitted[OF f eq, of x] by (simp add: bind_emitted[OF m f])
  qed
qed

lemma uniform_if [intro]: "uniform a \<Longrightarrow> uniform b \<Longrightarrow> uniform (if c then a else b)"
  by simp

lemma uniform_check_file_exists [simp, intro]: "uniform (check_file_exists p d)"
  unfolding check_file_exists_def by (intro uniform_bind uniform_if uniform_print uniform_return uniform_exists)

lemma uniform_check_interface_definition [simp, intro]: "uniform (check_interface_definition p n)"
  unfolding check_interface_definition_def
  by (intro uniform_bind uniform_if uniform_print uniform_return uniform_exists uniform_read)
     (simp split: option.split, intro conjI impI allI uniform_raise uniform_bind uniform_if uniform_print uniform_return)

lemma uniform_check_csproj_references [simp, intro]: "uniform (check_csproj_references p)"
  unfolding check_csproj_references_def Let_def
  by (intro uniform_bind uniform_if uniform_print uniform_return uniform_exists uniform_read)

lemma uniform_check_vsix_manifest [simp, intro]: "uniform (check_vsix_manifest p)"
  unfolding check_vsix_manifest_def Let_def
  by (intro uniform_bind uniform_if uniform_print uniform_return uniform_exists uniform_read)

lemma uniform_core_files_loop [simp, intro]: "uniform (core_files_loop fs acp)"
  by (induction fs acp rule: core_files_loop.induct) (auto intro!: uniform_bind)

lemma uniform_interfaces_loop [simp, intro]: "uniform (interfaces_loop ns acp)"
  by (induction ns acp rule: interfaces_loop.induct) (auto intro!: uniform_bind)

lemma uniform_project_configuration [simp, intro]: "uniform (project_configuration acp)"
  unfolding project_configuration_def Let_def
  by (intro uniform_bind uniform_return uniform_check_csproj_references uniform_check_vsix_manifest)

lemma uniform_service_container_integration [simp, intro]:
  "uniform (service_container_integration acp)"
  unfolding service_container_integration_def
  by (intro uniform_bind uniform_if uniform_print uniform_return uniform_exists uniform_read)

lemma uniform_final_result [simp, intro]: "uniform (final_result acp)"
  unfolding final_result_def
  by (intro uniform_bind uniform_if uniform_print uniform_return)

lemma uniform_main [simp, intro]: "uniform main"
  unfolding main_def
  by (intro uniform_bind uniform_print uniform_core_files_loop uniform_interfaces_loop
        uniform_project_configuration uniform_service_container_integration uniform_final_result)

section \<open>Substrings and pattern matches\<close>

lemma startswith_iff: "startswith s p \<longleftrightarrow> (\<exists>post. s = p @ post)"
  by (induction s p rule: startswith.induct) auto

lemma py_in_iff: "py_in needle content \<longleftrightarrow> (\<exists>pre post. content = pre @ needle @ post)"
proof (induction content)
  case Nil
  then show ?case by auto
next
  case (Cons c cs)
  show ?case
  proof
    assume "py_in needle (c # cs)"
    then consider "startswith (c # cs) needle" | "py_in needle cs" by auto
    then show "\<exists>pre post. c # cs = pre @ needle @ post"
    proof cases
      case 1
      then obtain post where "c # cs = needle @ post" by (auto simp: startswith_iff)
      then have "c # cs = [] @ needle @ post" by simp
      then show ?thesis by blast
    next
      case 2
      then obtain pre post where "cs = pre @ needle @ post" using Cons.IH by blast
      then have "c # cs = (c # pre) @ needle @ post" by simp
      then show ?thesis by blast
    qed
  next
    assume "\<exists>pre post. c # cs = pre @ needle @ post"
    then obtain pre post where eq: "c # cs = pre @ needle @ post" by blast
    show "py_in needle (c # cs)"
    proof (cases pre)
      case Nil
      then have "startswith (c # cs) needle" using eq by (auto simp: startswith_iff)
      then show ?thesis by simp
    next
      case (Cons a pre')
      then have "cs = pre' @ needle @ post" using eq by simp
      then have "py_in needle cs" using Cons.IH by blast
      then show ?thesis by simp
    qed
  qed
qed

lemma occurs_in_py_in [code]: "occurs_in needle content = py_in needle content"
  by (simp add: occurs_in_def py_in_iff)

lemma re_match_lits: "re_match r s \<Longrightarrow> re_match (map Lit xs @ r) (xs @ s)"
  by (induction xs) auto

lemma re_match_spaces:
  "ws \<noteq> [] \<Longrightarrow> \<forall>c\<in>set ws. isspace c \<Longrightarrow> re_match r s \<Longrightarrow> re_match (Spaces # r) (ws @ s)"
proof (induction ws)
  case Nil
  then show ?case by simp
next
  case (Cons a ws)
  show ?case
  proof (cases ws)
    case Nil
    then show ?thesis using Cons.prems by simp
  next
    case (Cons b ws')
    then have "re_match (Spaces # r) (ws @ s)" using Cons.IH Cons.prems by simp
    then show ?thesis using Cons.prems by simp
  qed
qed

lemma re_search_match: "re_match p s \<Longrightarrow> re_search p s"
  by (cases s) auto

lemma re_search_append: "re_match p s \<Longrightarrow> re_search p (pre @ s)"
  by (induction pre) (auto simp: re_search_match)

lemma interface_pattern_matches:
  assumes "ws1 \<noteq> []" "\<forall>c\<in>set ws1. isspace c" "ws2 \<noteq> []" "\<forall>c\<in>set ws2. isspace c"
  shows "re_search
           (map Lit (str ''public'') @ [Spaces] @ map Lit (str ''interface'') @ [Spaces] @ map Lit n)
           (pre @ str ''public'' @ ws1 @ str ''interface'' @ ws2 @ n @ rest)"
proof -
  have 1: "re_match (map Lit n @ []) (n @ rest)"
    by (rule re_match_lits) simp
  have 2: "re_match (Spaces # (map Lit n @ [])) (ws2 @ (n @ rest))"
    by (rule re_match_spaces[OF assms(3,4) 1])
  have 3: "re_match (map Lit (str ''interface'') @ (Spaces # (map Lit n @ [])))
             (str ''interface'' @ (ws2 @ (n @ rest)))"
    by (rule re_match_lits[OF 2])
  have 4: "re_match (Spaces # (map Lit (str ''interface'') @ (Spaces # (map Lit n @ []))))
             (ws1 @ (str ''interface'' @ (ws2 @ (n @ rest))))"
    by (rule re_match_spaces[OF assms(1,2) 3])
  have 5: "re_match (map Lit (str ''public'') @
               (Spaces # (map Lit (str ''interface'') @ (Spaces # (map Lit n @ [])))))
             (str ''public'' @ (ws1 @ (str ''interface'' @ (ws2 @ (n @ rest)))))"
    by (rule re_match_lits[OF 4])
  have "re_search (map Lit (str ''public'') @
               (Spaces # (map Lit (str ''interface'') @ (Spaces # (map Lit n @ [])))))
             (pre @ (str ''public'' @ (ws1 @ (str ''interface'' @ (ws2 @ (n @ rest))))))"
    by (rule re_search_append[OF 5])
  then show ?thesis by simp
qed

section \<open>What each check returns and prints\<close>

lemma check_file_exists_missing:
  "files w p = None \<Longrightarrow>
   check_file_exists p d w =
     (Inr False, w\<lparr>stdout := stdout w @
        [cross_mark @ str '' '' @ d @ str '': '' @ p @ str '' - NOT FOUND'']\<rparr>)"
  by (simp add: check_file_exists_def bind_def os_path_exists_def print_def return_io_def)

lemma check_file_exists_present:
  "files w p = Some nd \<Longrightarrow>
   check_file_exists p d w =
     (Inr True, w\<lparr>stdout := stdout w @ [check_mark @ str '' '' @ d @ str '': '' @ p]\<rparr>)"
  by (simp add: check_file_exists_def bind_def os_path_exists_def print_def return_io_def)

lemma check_interface_definition_missing:
  "files w p = None \<Longrightarrow>
   check_interface_definition p n w =
     (Inr False, w\<lparr>stdout := stdout w @
        [cross_mark @ str '' Interface '' @ n @ str '': File '' @ p @ str '' not found'']\<rparr>)"
  by (simp add: check_interface_definition_def bind_def os_path_exists_def print_def return_io_def)

lemma check_interface_definition_text:
  "files w p = Some (Text content) \<Longrightarrow> interface_pattern n = Some pat \<Longrightarrow>
   check_interface_definition p n w =
     (if re_search pat content
      then (Inr True, w\<lparr>stdout := stdout w @
              [check_mark @ str '' Interface '' @ n @ str '': Properly defined'']\<rparr>)
      else (Inr False, w\<lparr>stdout := stdout w @
              [cross_mark @ str '' Interface '' @ n @ str '': Not properly defined'']\<rparr>))"
  by (simp add: check_interface_definition_def bind_def os_path_exists_def print_def return_io_def
      read_text_def)

lemma check_csproj_references_missing:
  "files w p = None \<Longrightarrow>
   check_csproj_references p w =
     (Inr False, w\<lparr>stdout := stdout w @
        [cross_mark @ str '' Project file not found: '' @ p]\<rparr>)"
  by (simp add: check_csproj_references_def bind_def os_path_exists_def print_def return_io_def)

lemma check_csproj_references_text:
  "files w p = Some (Text content) \<Longrightarrow>
   check_csproj_references p w =
     (if filter (\<lambda>package. \<not> py_in package content) required_packages = []
      then (Inr True, w\<lparr>stdout := stdout w @
              [check_mark @ str '' All required NuGet packages are referenced'']\<rparr>)
      else (Inr False, w\<lparr>stdout := stdout w @
              [cross_mark @ str '' Missing NuGet packages: '' @
               join (str '', '') (filter (\<lambda>package. \<not> py_in package content) required_packages)]\<rparr>))"
  by (simp add: check_csproj_references_def bind_def os_path_exists_def print_def return_io_def
      read_text_def Let_def)

lemma check_vsix_manifest_missing:
  "files w p = None \<Longrightarrow>
   check_vsix_manifest p w =
     (Inr False, w\<lparr>stdout := stdout w @
        [cross_mark @ str '' VSIX manifest not found: '' @ p]\<rparr>)"
  by (simp add: check_vsix_manifest_def bind_def os_path_exists_def print_def return_io_def)

lemma check_vsix_manifest_text:
  "files w p = Some (Text content) \<Longrightarrow>
   check_vsix_manifest p w =
     (if filter (\<lambda>element. \<not> py_in (str ''<'' @ element) content) required_elements = []
      then (Inr True, w\<lparr>stdout := stdout w @
              [check_mark @ str '' VSIX manifest is properly configured'']\<rparr>)
      else (Inr False, w\<lparr>stdout := stdout w @
              [cross_mark @ str '' VSIX manifest missing elements: '' @
               join (str '', '')
                 (filter (\<lambda>element. \<not> py_in (str ''<'' @ element) content) required_elements)]\<rparr>))"
  by (simp add: check_vsix_manifest_def bind_def os_path_exists_def print_def return_io_def
      read_text_def Let_def)

lemma service_container_integration_missing:
  "files w package_file = None \<Longrightarrow> service_container_integration acp w = (Inr acp, w)"
  by (simp add: service_container_integration_def bind_def os_path_exists_def return_io_def)

lemma service_container_integration_text:
  "files w package_file = Some (Text content) \<Longrightarrow>
   service_container_integration acp w =
     (if py_in (str ''ServiceContainer'') content \<and> py_in (str ''InitializeAsync'') content
      then (Inr acp, w\<lparr>stdout := stdout w @
              [check_mark @ str '' Service container is properly integrated in main package'']\<rparr>)
      else (Inr False, w\<lparr>stdout := stdout w @
              [cross_mark @ str '' Service container integration incomplete'']\<rparr>))"
  by (simp add: service_container_integration_def bind_def os_path_exists_def print_def
      return_io_def read_text_def)

lemma interface_declared:
  assumes "files w p = Some (Text (str ''public interface '' @ n))" "\<not> list_ex re_special n"
  shows "fst (check_interface_definition p n w) = Inr True"
proof -
  have sp: "isspace 32" by (simp add: isspace_def)
  have "re_search
           (map Lit (str ''public'') @ [Spaces] @ map Lit (str ''interface'') @ [Spaces] @ map Lit n)
           ([] @ str ''public'' @ [32] @ str ''interface'' @ [32] @ n @ [])"
    by (rule interface_pattern_matches) (simp_all add: sp)
  moreover have "[] @ str ''public'' @ [32] @ str ''interface'' @ [32] @ n @ [] = str ''public interface '' @ n"
    by (simp add: str_def)
  ultimately have "re_search
           (map Lit (str ''public'') @ [Spaces] @ map Lit (str ''interface'') @ [Spaces] @ map Lit n)
           (str ''public interface '' @ n)"
    by (simp only:)
  then show ?thesis
    using assms(2) by (simp add: check_interface_definition_text[OF assms(1)] interface_pattern_def)
qed

section \<open>The result of the orchestrator\<close>

lemma bind_fst_iff:
  assumes m: "uniform m" and f: "\<And>x. uniform (f x)"
  shows "fst (bind m f w) = Inr y \<longleftrightarrow> (\<exists>x. fst (m w) = Inr x \<and> fst (f x w) = Inr y)"
  by (cases "fst (m w)") (simp_all add: bind_step(1)[OF m f])

lemma print_fst: "fst (print s w) = Inr ()"
  by (simp add: print_def)

lemma print_emitted: "emitted (print s) w = [s]"
  by (simp add: print_def emitted_def)

lemma return_fst: "fst (return_io x w) = Inr x"
  by (simp add: return_io_def)

lemma return_emitted: "emitted (return_io x) w = []"
  by (simp add: return_io_def emitted_def)

lemma check_file_exists_fst: "fst (check_file_exists p d w) = Inr (files w p \<noteq> None)"
  by (cases "files w p") (simp_all add: check_file_exists_missing check_file_exists_present)

lemma core_files_loop_fst:
  "fst (core_files_loop fs acp w) = Inr (acp \<and> (\<forall>(p, d) \<in> set fs. files w p \<noteq> None))"
proof (induction fs acp rule: core_files_loop.induct)
  case (1 acp)
  then show ?case by (simp add: return_fst)
next
  case (2 file_path description rest acp)
  have u: "\<And>ok. uniform (core_files_loop rest (if \<not> ok then False else acp))"
    by (rule uniform_core_files_loop)
  show ?case
    using "2.IH"[of True] "2.IH"[of False]
    by (cases "files w file_path")
       (simp_all add: bind_step(1)[OF uniform_check_file_exists u] check_file_exists_fst)
qed

lemma core_files_loop_emitted:
  "emitted (core_files_loop fs acp) w =
     concat (map (\<lambda>(p, d). emitted (check_file_exists p d) w) fs)"
proof (induction fs acp rule: core_files_loop.induct)
  case (1 acp)
  then show ?case by (simp add: return_emitted)
next
  case (2 file_path description rest acp)
  have u: "\<And>ok. uniform (core_files_loop rest (if \<not> ok then False else acp))"
    by (rule uniform_core_files_loop)
  show ?case
    using "2.IH"[of True] "2.IH"[of False]
    by (simp add: bind_emitted[OF uniform_check_file_exists u] check_file_exists_fst)
qed

lemma interfaces_loop_fst_true:
  "fst (interfaces_loop ns acp w) = Inr True \<longleftrightarrow>
     acp \<and> (\<forall>(n, d) \<in> set ns. fst (check_interface_definition (interface_file n) n w) = Inr True)"
proof (induction ns acp rule: interfaces_loop.induct)
  case (1 acp)
  then show ?case by (simp add: return_fst)
next
  case (2 interface_name description rest acp)
  have u: "\<And>ok. uniform (interfaces_loop rest (if \<not> ok then False else acp))"
    by (rule uniform_interfaces_loop)
  show ?case
    using "2.IH"[of True] "2.IH"[of False]
    by (auto simp add: bind_fst_iff[OF uniform_check_interface_definition u])
qed

lemma interfaces_loop_returns:
  assumes "\<forall>(n, d) \<in> set ns. \<exists>b. fst (check_interface_definition (interface_file n) n w) = Inr b"
  shows "(\<exists>b. fst (interfaces_loop ns acp w) = Inr b) \<and>
         emitted (interfaces_loop ns acp) w =
           concat (map (\<lambda>(n, d). emitted (check_interface_definition (interface_file n) n) w) ns)"
  using assms
proof (induction ns acp rule: interfaces_loop.induct)
  case (1 acp)
  then show ?case by (simp add: return_fst return_emitted)
next
  case (2 interface_name description rest acp)
  have u: "\<And>ok. uniform (interfaces_loop rest (if \<not> ok then False else acp))"
    by (rule uniform_interfaces_loop)
  from "2.prems" obtain b where
    b: "fst (check_interface_definition (interface_file interface_name) interface_name w) = Inr b"
    by auto
  have rest: "\<forall>(n, d) \<in> set rest. \<exists>b. fst (check_interface_definition (interface_file n) n w) = Inr b"
    using "2.prems" by simp
  show ?case
    using "2.IH"[OF rest, of b] b
    by (simp add: bind_step(1)[OF uniform_check_interface_definition u]
        bind_emitted[OF uniform_check_interface_definition u])
qed

lemma project_configuration_fst_true:
  "fst (project_configuration acp w) = Inr True \<longleftrightarrow>
     acp \<and> fst (check_csproj_references csproj_file w) = Inr True \<and>
     fst (check_vsix_manifest manifest_file w) = Inr True"
proof -
  have u2: "\<And>a ok. uniform (return_io (if \<not> ok then False else a) :: bool io)"
    by (rule uniform_return)
  have u1: "\<And>ok. uniform (bind (check_vsix_manifest manifest_file)
       (\<lambda>ok'. return_io (if \<not> ok' then False else if \<not> ok then False else acp)))"
    by (rule uniform_bind[OF uniform_check_vsix_manifest uniform_return])
  show ?thesis
    unfolding project_configuration_def Let_def
    by (auto simp add: bind_fst_iff[OF uniform_check_csproj_references u1]
        bind_fst_iff[OF uniform_check_vsix_manifest u2] return_fst)
qed

lemma final_result_fst: "fst (final_result acp w) = Inr acp"
  by (simp add: final_result_def bind_def print_def return_io_def)

lemma service_container_integration_fst_true:
  "fst (service_container_integration acp w) = Inr True \<longleftrightarrow>
     acp \<and> (files w package_file = None \<or>
       (\<exists>c. files w package_file = Some (Text c) \<and>
            py_in (str ''ServiceContainer'') c \<and> py_in (str ''InitializeAsync'') c))"
  by (simp add: service_container_integration_def bind_def os_path_exists_def read_text_def
      print_def return_io_def split: option.splits node.splits)

lemma main_fst_chain:
  "fst (main w) = Inr y \<longleftrightarrow>
     (\<exists>a1 a2 a3. fst (core_files_loop core_files True w) = Inr a1 \<and>
        fst (interfaces_loop interfaces a1 w) = Inr a2 \<and>
        fst (project_configuration a2 w) = Inr a3 \<and>
        fst (service_container_integration a3 w) = Inr y)"
  unfolding main_def
  by (simp add: bind_fst_iff uniform_bind print_fst final_result_fst)

lemma main_fst_true:
  "fst (main w) = Inr True \<longleftrightarrow>
     (\<forall>(p, d) \<in> set core_files. files w p \<noteq> None) \<and>
     (\<forall>(n, d) \<in> set interfaces.
        fst (check_interface_definition (interface_file n) n w) = Inr True) \<and>
     fst (check_csproj_references csproj_file w) = Inr True \<and>
     fst (check_vsix_manifest manifest_file w) = Inr True \<and>
     fst (service_container_integration True w) = Inr True"
  (is "?L \<longleftrightarrow> ?C \<and> ?I \<and> ?P \<and> ?M \<and> ?S")
proof
  assume ?L
  then obtain a1 a2 a3 where
    c: "fst (core_files_loop core_files True w) = Inr a1" and
    i: "fst (interfaces_loop interfaces a1 w) = Inr a2" and
    p: "fst (project_configuration a2 w) = Inr a3" and
    s: "fst (service_container_integration a3 w) = Inr True"
    unfolding main_fst_chain by blast
  from s have a3: a3 and s': ?S
    by (simp_all add: service_container_integration_fst_true)
  from p a3 have a2: a2 and p': "?P \<and> ?M"
    by (simp_all add: project_configuration_fst_true)
  from i a2 have a1: a1 and i': ?I
    by (simp_all add: interfaces_loop_fst_true)
  from c a1 have ?C
    by (simp add: core_files_loop_fst)
  with i' p' s' show "?C \<and> ?I \<and> ?P \<and> ?M \<and> ?S" by simp
next
  assume r: "?C \<and> ?I \<and> ?P \<and> ?M \<and> ?S"
  then have "fst (core_files_loop core_files True w) = Inr True"
    by (simp add: core_files_loop_fst)
  moreover from r have "fst (interfaces_loop interfaces True w) = Inr True"
    by (simp add: interfaces_loop_fst_true)
  moreover from r have "fst (project_configuration True w) = Inr True"
    by (simp add: project_configuration_fst_true)
  moreover from r have "fst (service_container_integration True w) = Inr True"
    by simp
  ultimately show ?L unfolding main_fst_chain by blast
qed

lemma main_fst_not_true_cases: "fst (main w) \<noteq> Inr True \<Longrightarrow> exit_status w = 1"
  by (cases "fst (main w)") (auto simp: exit_status_def)

lemma exit_status_zero_iff: "exit_status w = 0 \<longleftrightarrow> fst (main w) = Inr True"
  by (cases "fst (main w)") (auto simp: exit_status_def)

section \<open>Runs in which every opened file is readable\<close>

lemma emitted_of: "m w = (r, w\<lparr>stdout := stdout w @ ls\<rparr>) \<Longrightarrow> emitted m w = ls"
  by (simp add: emitted_def)

lemma check_file_exists_one_line: "length (emitted (check_file_exists p d) w) = 1"
  by (cases "files w p")
     (simp_all add: emitted_of[OF check_file_exists_missing] emitted_of[OF check_file_exists_present])

lemma check_interface_definition_readable:
  assumes "readable_node (files w p)" "\<not> list_ex re_special n"
  shows "(\<exists>b. fst (check_interface_definition p n w) = Inr b) \<and>
         length (emitted (check_interface_definition p n) w) = 1"
proof (cases "files w p")
  case None
  then show ?thesis
    by (auto simp add: check_interface_definition_missing emitted_of[OF check_interface_definition_missing])
next
  case (Some nd)
  with assms(1) obtain c where c: "files w p = Some (Text c)"
    by (cases nd) simp_all
  have pat: "interface_pattern n = Some (map Lit (str ''public'') @ [Spaces] @
      map Lit (str ''interface'') @ [Spaces] @ map Lit n)"
    using assms(2) by (simp add: interface_pattern_def)
  show ?thesis
    by (auto simp add: check_interface_definition_text[OF c pat] emitted_def)
qed

lemma check_csproj_references_readable:
  assumes "readable_node (files w p)"
  shows "(\<exists>b. fst (check_csproj_references p w) = Inr b) \<and>
         length (emitted (check_csproj_references p) w) = 1"
proof (cases "files w p")
  case None
  then show ?thesis
    by (auto simp add: check_csproj_references_missing emitted_of[OF check_csproj_references_missing])
next
  case (Some nd)
  with assms obtain c where c: "files w p = Some (Text c)"
    by (cases nd) simp_all
  show ?thesis
    by (auto simp add: check_csproj_references_text[OF c] emitted_def)
qed

lemma check_vsix_manifest_readable:
  assumes "readable_node (files w p)"
  shows "(\<exists>b. fst (check_vsix_manifest p w) = Inr b) \<and>
         length (emitted (check_vsix_manifest p) w) = 1"
proof (cases "files w p")
  case None
  then show ?thesis
    by (auto simp add: check_vsix_manifest_missing emitted_of[OF check_vsix_manifest_missing])
next
  case (Some nd)
  with assms obtain c where c: "files w p = Some (Text c)"
    by (cases nd) simp_all
  show ?thesis
    by (auto simp add: check_vsix_manifest_text[OF c] emitted_def)
qed

lemma service_container_integration_readable:
  assumes "readable_node (files w package_file)"
  shows "(\<exists>b. fst (service_container_integration acp w) = Inr b) \<and>
         length (emitted (service_container_integration acp) w) =
           (if files w package_file = None then 0 else 1)"
proof (cases "files w package_file")
  case None
  then show ?thesis
    by (auto simp add: service_container_integration_missing emitted_def)
next
  case (Some nd)
  with assms obtain c where c: "files w package_file = Some (Text c)"
    by (cases nd) simp_all
  show ?thesis
    by (auto simp add: service_container_integration_text[OF c] emitted_def c)
qed

lemma service_container_integration_emitted_flag:
  "emitted (service_container_integration acp) w =
   emitted (service_container_integration True) w"
  by (simp add: emitted_def service_container_integration_def bind_def os_path_exists_def
      read_text_def print_def return_io_def split: option.splits node.splits)

lemma interfaces_literal: "\<forall>(n, d) \<in> set interfaces. \<not> list_ex re_special n"
  by (simp add: interfaces_def str_def re_special_def)

lemma readable_parts:
  assumes "readable w"
  shows "\<forall>(n, d) \<in> set interfaces. readable_node (files w (interface_file n))"
    and "readable_node (files w csproj_file)"
    and "readable_node (files w manifest_file)"
    and "readable_node (files w package_file)"
  using assms by (auto simp add: readable_def opened_files_def list_all_iff)

lemma project_configuration_fst:
  "fst (project_configuration acp w) =
     (case fst (check_csproj_references csproj_file w) of
        Inl e \<Rightarrow> Inl e
      | Inr ok1 \<Rightarrow>
          (case fst (check_vsix_manifest manifest_file w) of
             Inl e \<Rightarrow> Inl e
           | Inr ok2 \<Rightarrow> Inr (ok1 \<and> ok2 \<and> acp)))"
  unfolding project_configuration_def Let_def
  by (auto simp add: bind_step(1) uniform_bind return_fst split: sum.splits)

lemma project_configuration_emitted:
  "emitted (project_configuration acp) w =
     emitted (check_csproj_references csproj_file) w @
     (case fst (check_csproj_references csproj_file w) of
        Inl e \<Rightarrow> []
      | Inr ok \<Rightarrow> emitted (check_vsix_manifest manifest_file) w)"
  unfolding project_configuration_def Let_def
  by (auto simp add: bind_emitted bind_step(1) uniform_bind return_emitted split: sum.splits)

lemma main_fst:
  "fst (main w) =
     (case fst (interfaces_loop interfaces (\<forall>(p, d) \<in> set core_files. files w p \<noteq> None) w) of
        Inl e \<Rightarrow> Inl e
      | Inr a2 \<Rightarrow>
          (case fst (project_configuration a2 w) of
             Inl e \<Rightarrow> Inl e
           | Inr a3 \<Rightarrow> fst (service_container_integration a3 w)))"
  unfolding main_def
  by (auto simp add: bind_step(1) uniform_bind print_fst core_files_loop_fst final_result_fst
      split: sum.splits)

lemma main_emitted:
  "emitted main w =
     [magnifier @ str '' Validating Visual Studio Extension Project Structure'', rule_line,
      newline @ folder @ str '' Core Project Files:''] @
     concat (map (\<lambda>(p, d). emitted (check_file_exists p d) w) core_files) @
     [newline @ plug @ str '' Interface Definitions:''] @
     emitted (interfaces_loop interfaces (\<forall>(p, d) \<in> set core_files. files w p \<noteq> None)) w @
     (case fst (interfaces_loop interfaces (\<forall>(p, d) \<in> set core_files. files w p \<noteq> None) w) of
        Inl e \<Rightarrow> []
      | Inr a2 \<Rightarrow>
          [newline @ gear @ str '' Project Configuration:''] @
          emitted (project_configuration a2) w @
          (case fst (project_configuration a2 w) of
             Inl e \<Rightarrow> []
           | Inr a3 \<Rightarrow>
               [newline @ crane @ str '' Service Container Integration:''] @
               emitted (service_container_integration a3) w @
               (case fst (service_container_integration a3 w) of
                  Inl e \<Rightarrow> []
                | Inr a4 \<Rightarrow> emitted (final_result a4) w)))"
  unfolding main_def
  by (auto simp add: bind_emitted bind_step(1) uniform_bind print_emitted print_fst
      core_files_loop_fst core_files_loop_emitted split: sum.splits)

lemma final_result_emitted:
  "emitted (final_result acp) w =
     (if acp then
        [newline @ rule_line,
         party @ str '' All validation checks PASSED!'',
         check_mark @ str '' Task 1 requirements have been successfully implemented:'',
         str ''   '' @ bullet @ str '' VSIX project with proper manifest and package configuration'',
         str ''   '' @ bullet @ str '' Core interfaces defined for services and components'',
         str ''   '' @ bullet @
           str '' Dependency injection container set up for service management'']
      else
        [newline @ rule_line,
         cross_mark @ str '' Some validation checks FAILED!'',
         str ''Please review the issues above and fix them.''])"
  by (simp add: final_result_def bind_def print_def return_io_def emitted_def)

lemma interfaces_loop_readable:
  assumes "readable w"
  shows "(\<exists>b. fst (interfaces_loop interfaces acp w) = Inr b) \<and>
         emitted (interfaces_loop interfaces acp) w =
           concat (map (\<lambda>(n, d). emitted (check_interface_definition (interface_file n) n) w)
                     interfaces)"
proof (rule interfaces_loop_returns)
  show "\<forall>(n, d) \<in> set interfaces.
          \<exists>b. fst (check_interface_definition (interface_file n) n w) = Inr b"
    using readable_parts(1)[OF assms] interfaces_literal
      check_interface_definition_readable[of w]
    by blast
qed

lemma main_when_readable:
  assumes "readable w"
  shows "\<exists>b. fst (main w) = Inr b \<and>
     emitted main w =
       [magnifier @ str '' Validating Visual Studio Extension Project Structure'', rule_line,
        newline @ folder @ str '' Core Project Files:''] @
       concat (map (\<lambda>(p, d). emitted (check_file_exists p d) w) core_files) @
       [newline @ plug @ str '' Interface Definitions:''] @
       concat (map (\<lambda>(n, d). emitted (check_interface_definition (interface_file n) n) w)
                 interfaces) @
       [newline @ gear @ str '' Project Configuration:''] @
       emitted (check_csproj_references csproj_file) w @
       emitted (check_vsix_manifest manifest_file) w @
       [newline @ crane @ str '' Service Container Integration:''] @
       emitted (service_container_integration True) w @
       emitted (final_result b) w"
proof -
  let ?a1 = "\<forall>(p, d) \<in> set core_files. files w p \<noteq> None"
  obtain a2 where a2: "fst (interfaces_loop interfaces ?a1 w) = Inr a2"
    using interfaces_loop_readable[OF assms, of ?a1] by blast
  have e2: "emitted (interfaces_loop interfaces ?a1) w =
      concat (map (\<lambda>(n, d). emitted (check_interface_definition (interface_file n) n) w)
                interfaces)"
    using interfaces_loop_readable[OF assms, of ?a1] by blast
  obtain ok1 where ok1: "fst (check_csproj_references csproj_file w) = Inr ok1"
    using check_csproj_references_readable[OF readable_parts(2)[OF assms]] by blast
  obtain ok2 where ok2: "fst (check_vsix_manifest manifest_file w) = Inr ok2"
    using check_vsix_manifest_readable[OF readable_parts(3)[OF assms]] by blast
  obtain a3 where a3: "fst (project_configuration a2 w) = Inr a3"
    by (simp add: project_configuration_fst ok1 ok2)
  have e3: "emitted (project_configuration a2) w =
      emitted (check_csproj_references csproj_file) w @
      emitted (check_vsix_manifest manifest_file) w"
    by (simp add: project_configuration_emitted ok1)
  obtain b where b: "fst (service_container_integration a3 w) = Inr b"
    using service_container_integration_readable[OF readable_parts(4)[OF assms]] by blast
  have e4: "emitted (service_container_integration a3) w =
      emitted (service_container_integration True) w"
    by (rule service_container_integration_emitted_flag)
  have r: "fst (main w) = Inr b"
    unfolding main_fst a2 by (simp add: a3 b)
  have "emitted main w =
       [magnifier @ str '' Validating Visual Studio Extension Project Structure'', rule_line,
        newline @ folder @ str '' Core Project Files:''] @
       concat (map (\<lambda>(p, d). emitted (check_file_exists p d) w) core_files) @
       [newline @ plug @ str '' Interface Definitions:''] @
       concat (map (\<lambda>(n, d). emitted (check_interface_definition (interface_file n) n) w)
                 interfaces) @
       [newline @ gear @ str '' Project Configuration:''] @
       emitted (check_csproj_references csproj_file) w @
       emitted (check_vsix_manifest manifest_file) w @
       [newline @ crane @ str '' Service Container Integration:''] @
       emitted (service_container_integration True) w @
       emitted (final_result b) w"
    unfolding main_emitted a2 e2 by (simp add: a3 b e3 e4)
  with r show ?thesis by blast
qed

lemma length_concat_ones:
  "\<forall>x\<in>set xs. length (f x) = 1 \<Longrightarrow> length (concat (map f xs)) = length xs"
  by (induction xs) simp_all

lemma project_configuration_csproj_directory:
  "files w csproj_file = Some Directory \<Longrightarrow>
   project_configuration acp w = (Inl IsADirectoryError, w)"
  by (simp add: project_configuration_def check_csproj_references_def bind_def
      os_path_exists_def read_text_def)

lemma check_vsix_manifest_locked:
  "files w p = Some NoReadPermission \<Longrightarrow> check_vsix_manifest p w = (Inl PermissionError, w)"
  by (simp add: check_vsix_manifest_def bind_def os_path_exists_def read_text_def)

lemma csproj_dir_world_interfaces:
  "\<forall>(n, d) \<in> set interfaces. files csproj_dir_world (interface_file n) = None"
  by (simp add: interfaces_def csproj_dir_world_def interface_file_def csproj_file_def
      base_path_def str_def)

lemma manifest_locked_world_interfaces:
  "\<forall>(n, d) \<in> set interfaces. files manifest_locked_world (interface_file n) = None"
  by (simp add: interfaces_def manifest_locked_world_def interface_file_def manifest_file_def
      base_path_def str_def)

lemma interfaces_loop_all_missing:
  assumes "\<forall>(n, d) \<in> set interfaces. files w (interface_file n) = None"
  shows "(\<exists>b. fst (interfaces_loop interfaces acp w) = Inr b) \<and>
         length (emitted (interfaces_loop interfaces acp) w) = 7"
proof -
  have m: "files w (interface_file n) = None" if "(n, d) \<in> set interfaces" for n d
    using assms that by blast
  have one: "\<forall>x \<in> set interfaces.
      length ((\<lambda>(n, d). emitted (check_interface_definition (interface_file n) n) w) x) = 1"
  proof
    fix x assume x: "x \<in> set interfaces"
    obtain n d where nd: "x = (n, d)" by (cases x)
    have "files w (interface_file n) = None" using m x nd by blast
    then show "length ((\<lambda>(n, d). emitted (check_interface_definition (interface_file n) n) w) x) = 1"
      by (simp add: nd emitted_of[OF check_interface_definition_missing])
  qed
  have ret: "\<forall>(n, d) \<in> set interfaces.
          \<exists>b. fst (check_interface_definition (interface_file n) n w) = Inr b"
  proof
    fix x assume x: "x \<in> set interfaces"
    obtain n d where nd: "x = (n, d)" by (cases x)
    have "files w (interface_file n) = None" using m x nd by blast
    then have "fst (check_interface_definition (interface_file n) n w) = Inr False"
      by (simp add: check_interface_definition_missing)
    then show "case x of (n, d) \<Rightarrow>
        \<exists>b. fst (check_interface_definition (interface_file n) n w) = Inr b"
      unfolding nd by blast
  qed
  have "length (emitted (interfaces_loop interfaces acp) w) = length interfaces"
    using interfaces_loop_returns[OF ret, of acp] length_concat_ones[OF one] by simp
  moreover have "length interfaces = 7" by (simp add: interfaces_def)
  ultimately show ?thesis using interfaces_loop_returns[OF ret, of acp] by simp
qed

section \<open>The sample worlds under the checks\<close>

lemma good_world_core:
  "\<forall>(p, d) \<in> set core_files. fst (check_file_exists p d good_world) = Inr True"
  by (simp add: core_files_def check_file_exists_fst good_world_def good_files_def base_path_def
      str_def)

lemma good_world_interfaces:
  "\<forall>(n, d) \<in> set interfaces.
     fst (check_interface_definition (interface_file n) n good_world) = Inr True"
  unfolding interfaces_def
  by (auto intro!: interface_declared
      simp: interface_file_def good_world_def good_files_def base_path_def str_def re_special_def)

lemma good_world_csproj: "fst (check_csproj_references csproj_file good_world) = Inr True"
  by code_simp

lemma good_world_manifest: "fst (check_vsix_manifest manifest_file good_world) = Inr True"
  by code_simp

lemma good_world_integration: "fst (service_container_integration True good_world) = Inr True"
  by code_simp

lemma empty_world_csproj: "fst (check_csproj_references csproj_file empty_world) = Inr False"
  by (simp add: check_csproj_references_missing empty_world_def)

lemma empty_world_readable: "readable empty_world"
  by (simp add: readable_def opened_files_def interfaces_def empty_world_def)

section \<open>The claims\<close>

text \<open>
  C1. The exit status is 0 exactly when every check returns true: the five existence
  checks, the seven interface checks, the reference check, the manifest check and the
  integration block (which leaves a true flag true). Otherwise it is 1, also when a check
  ends the run with an exception.
\<close>

theorem exit_status_iff_all_checks:
  "exit_status w =
     (if (\<forall>(p, d) \<in> set core_files. fst (check_file_exists p d w) = Inr True) \<and>
         (\<forall>(n, d) \<in> set interfaces.
            fst (check_interface_definition (interface_file n) n w) = Inr True) \<and>
         fst (check_csproj_references csproj_file w) = Inr True \<and>
         fst (check_vsix_manifest manifest_file w) = Inr True \<and>
         fst (service_container_integration True w) = Inr True
      then 0 else 1)"
proof -
  have "exit_status w = (if fst (main w) = Inr True then 0 else 1)"
    by (cases "fst (main w)") (auto simp: exit_status_def)
  then show ?thesis
    by (simp only: main_fst_true check_file_exists_fst sum.inject simp_thms)
qed

theorem exit_status_iff_all_checks_witness:
  "exit_status good_world = 0 \<and> exit_status empty_world = 1"
  using exit_status_iff_all_checks[of good_world] exit_status_iff_all_checks[of empty_world]
    good_world_core good_world_interfaces good_world_csproj good_world_manifest
    good_world_integration empty_world_csproj
  by simp

text \<open>
  C2 (amended). In every world in which each file the run opens is absent or readable text,
  the run completes, and what it prints is the headers, then the line of each of the five
  existence checks, of each of the seven interface checks, of the reference check and of the
  manifest check, whatever the others returned, then what the integration block prints,
  then the final banner. Each of those checks prints exactly one line; the integration block
  prints one line when the package file exists and nothing when it does not.
\<close>

theorem every_check_reports_when_files_are_readable:
  assumes "readable w"
  shows "(\<exists>b. fst (main w) = Inr b \<and>
     emitted main w =
       [magnifier @ str '' Validating Visual Studio Extension Project Structure'', rule_line,
        newline @ folder @ str '' Core Project Files:''] @
       concat (map (\<lambda>(p, d). emitted (check_file_exists p d) w) core_files) @
       [newline @ plug @ str '' Interface Definitions:''] @
       concat (map (\<lambda>(n, d). emitted (check_interface_definition (interface_file n) n) w)
                 interfaces) @
       [newline @ gear @ str '' Project Configuration:''] @
       emitted (check_csproj_references csproj_file) w @
       emitted (check_vsix_manifest manifest_file) w @
       [newline @ crane @ str '' Service Container Integration:''] @
       emitted (service_container_integration True) w @
       emitted (final_result b) w) \<and>
     (\<forall>(p, d) \<in> set core_files. length (emitted (check_file_exists p d) w) = 1) \<and>
     (\<forall>(n, d) \<in> set interfaces.
        length (emitted (check_interface_definition (interface_file n) n) w) = 1) \<and>
     length (emitted (check_csproj_references csproj_file) w) = 1 \<and>
     length (emitted (check_vsix_manifest manifest_file) w) = 1 \<and>
     length (emitted (service_container_integration True) w) =
       (if files w package_file = None then 0 else 1)"
proof (intro conjI)
  show "\<forall>(p, d) \<in> set core_files. length (emitted (check_file_exists p d) w) = 1"
    by (simp add: check_file_exists_one_line split_beta)
  show "\<forall>(n, d) \<in> set interfaces.
        length (emitted (check_interface_definition (interface_file n) n) w) = 1"
    using readable_parts(1)[OF assms] interfaces_literal check_interface_definition_readable[of w]
    by blast
  show "length (emitted (check_csproj_references csproj_file) w) = 1"
    using check_csproj_references_readable[OF readable_parts(2)[OF assms]] by blast
  show "length (emitted (check_vsix_manifest manifest_file) w) = 1"
    using check_vsix_manifest_readable[OF readable_parts(3)[OF assms]] by blast
  show "length (emitted (service_container_integration True) w) =
       (if files w package_file = None then 0 else 1)"
    using service_container_integration_readable[OF readable_parts(4)[OF assms]] by blast
qed (rule main_when_readable[OF assms])

theorem every_check_reports_when_files_are_readable_witness:
  "readable empty_world \<and> (\<exists>b. fst (main empty_world) = Inr b) \<and>
   length (emitted (check_csproj_references csproj_file) empty_world) = 1 \<and>
   length (emitted (check_vsix_manifest manifest_file) empty_world) = 1 \<and>
   length (emitted (service_container_integration True) empty_world) = 0"
proof -
  have n: "files empty_world package_file = None"
    by (simp add: empty_world_def)
  from every_check_reports_when_files_are_readable[OF empty_world_readable] n
    empty_world_readable
  show ?thesis by auto
qed

text \<open>
  C2 as stated fails: with a directory at the path of the project file the reference check
  raises, the run ends with the exception after seventeen lines, and the last line printed
  is the header of the project configuration group, so neither the reference check nor the
  manifest check nor the integration block reports.
\<close>

theorem run_aborts_on_unreadable_project_file:
  "fst (main csproj_dir_world) = Inl IsADirectoryError \<and>
   length (emitted main csproj_dir_world) = 17 \<and>
   last (emitted main csproj_dir_world) = newline @ gear @ str '' Project Configuration:''"
proof -
  have c: "files csproj_dir_world csproj_file = Some Directory"
    by (simp add: csproj_dir_world_def)
  let ?a1 = "\<forall>(p, d) \<in> set core_files. files csproj_dir_world p \<noteq> None"
  obtain a2 where a2: "fst (interfaces_loop interfaces ?a1 csproj_dir_world) = Inr a2"
    using interfaces_loop_all_missing[OF csproj_dir_world_interfaces, of ?a1] by blast
  have l2: "length (emitted (interfaces_loop interfaces acp) csproj_dir_world) = 7" for acp
    using interfaces_loop_all_missing[OF csproj_dir_world_interfaces, of acp] by blast
  have p: "fst (project_configuration a2 csproj_dir_world) = Inl IsADirectoryError"
    by (simp add: project_configuration_csproj_directory[OF c])
  have e: "emitted (project_configuration a2) csproj_dir_world = []"
    by (simp add: project_configuration_csproj_directory[OF c] emitted_def)
  have l1: "length (concat (map (\<lambda>(p, d). emitted (check_file_exists p d) csproj_dir_world)
      core_files)) = 5"
    by (simp add: core_files_def check_file_exists_one_line)
  have 1: "fst (main csproj_dir_world) = Inl IsADirectoryError"
    unfolding main_fst a2 by (simp add: p)
  have 2: "length (emitted main csproj_dir_world) = 17"
    unfolding main_emitted a2 by (simp add: p e l1 l2)
  have 3: "last (emitted main csproj_dir_world) = newline @ gear @ str '' Project Configuration:''"
    unfolding main_emitted a2 by (simp add: p e)
  from 1 2 3 show ?thesis by blast
qed

text \<open>
  C3. When the path does not exist, the existence check, the interface check, the
  reference check and the manifest check each return false, print one failure line that
  says the file was not found (\<open>NOT FOUND\<close> in capitals for the existence check) and
  raise nothing.
\<close>

theorem missing_path_reports_not_found:
  assumes "files w p = None"
  shows "check_file_exists p d w =
           (Inr False, w\<lparr>stdout := stdout w @
              [cross_mark @ str '' '' @ d @ str '': '' @ p @ str '' - NOT FOUND'']\<rparr>) \<and>
         check_interface_definition p n w =
           (Inr False, w\<lparr>stdout := stdout w @
              [cross_mark @ str '' Interface '' @ n @ str '': File '' @ p @ str '' not found'']\<rparr>) \<and>
         check_csproj_references p w =
           (Inr False, w\<lparr>stdout := stdout w @
              [cross_mark @ str '' Project file not found: '' @ p]\<rparr>) \<and>
         check_vsix_manifest p w =
           (Inr False, w\<lparr>stdout := stdout w @
              [cross_mark @ str '' VSIX manifest not found: '' @ p]\<rparr>)"
  using assms
  by (simp add: check_file_exists_missing check_interface_definition_missing
      check_csproj_references_missing check_vsix_manifest_missing)

theorem missing_path_reports_not_found_witness:
  "files empty_world (str ''a.cs'') = None \<and>
   fst (check_file_exists (str ''a.cs'') (str ''A'') empty_world) = Inr False \<and>
   emitted (check_file_exists (str ''a.cs'') (str ''A'')) empty_world =
     [cross_mark @ str '' A: a.cs - NOT FOUND''] \<and>
   fst (check_interface_definition (str ''a.cs'') (str ''IA'') empty_world) = Inr False \<and>
   emitted (check_interface_definition (str ''a.cs'') (str ''IA'')) empty_world =
     [cross_mark @ str '' Interface IA: File a.cs not found''] \<and>
   fst (check_csproj_references (str ''a.cs'') empty_world) = Inr False \<and>
   emitted (check_csproj_references (str ''a.cs'')) empty_world =
     [cross_mark @ str '' Project file not found: a.cs''] \<and>
   fst (check_vsix_manifest (str ''a.cs'') empty_world) = Inr False \<and>
   emitted (check_vsix_manifest (str ''a.cs'')) empty_world =
     [cross_mark @ str '' VSIX manifest not found: a.cs'']"
proof -
  have h: "files empty_world (str ''a.cs'') = None"
    by (simp add: empty_world_def)
  show ?thesis
    using h missing_path_reports_not_found[OF h, of "str ''A''" "str ''IA''"]
    by (simp add: emitted_def str_def)
qed

text \<open>
  C4. On a project file that can be read, the reference check returns true exactly when
  each of the five package names occurs in the content as a substring, compared code point
  by code point, wherever it stands. Otherwise it returns false and its line lists the
  names that do not occur, in the order of the list.
\<close>

theorem csproj_check_passes_iff_all_names_occur:
  assumes "files w p = Some (Text content)"
  shows "check_csproj_references p w =
    (if \<forall>name \<in> set [str ''Microsoft.VisualStudio.SDK'', str ''Microsoft.VSSDK.BuildTools'',
                         str ''Microsoft.VisualStudio.Shell.Framework'', str ''LibGit2Sharp'',
                         str ''Newtonsoft.Json'']. occurs_in name content
     then (Inr True, w\<lparr>stdout := stdout w @
             [check_mark @ str '' All required NuGet packages are referenced'']\<rparr>)
     else (Inr False, w\<lparr>stdout := stdout w @
             [cross_mark @ str '' Missing NuGet packages: '' @
              join (str '', '')
                (filter (\<lambda>name. \<not> occurs_in name content)
                   [str ''Microsoft.VisualStudio.SDK'', str ''Microsoft.VSSDK.BuildTools'',
                    str ''Microsoft.VisualStudio.Shell.Framework'', str ''LibGit2Sharp'',
                    str ''Newtonsoft.Json''])]\<rparr>))"
proof -
  have e: "(filter (\<lambda>package. \<not> py_in package content) required_packages = []) =
           (\<forall>name \<in> set required_packages. occurs_in name content)"
    by (simp add: filter_empty_conv occurs_in_py_in)
  show ?thesis
    unfolding check_csproj_references_text[OF assms] e
    by (simp only: occurs_in_py_in required_packages_def)
qed

theorem csproj_check_passes_iff_all_names_occur_witness:
  "check_csproj_references csproj_file partial_csproj_world =
     (Inr False, partial_csproj_world\<lparr>stdout :=
        [cross_mark @ str '' Missing NuGet packages: '' @ str ''Newtonsoft.Json'']\<rparr>) \<and>
   fst (check_csproj_references csproj_file good_world) = Inr True"
proof -
  have f: "files partial_csproj_world csproj_file = Some (Text partial_csproj_content)"
    by (simp add: partial_csproj_world_def)
  have c: "(\<forall>name \<in> set [str ''Microsoft.VisualStudio.SDK'', str ''Microsoft.VSSDK.BuildTools'',
                         str ''Microsoft.VisualStudio.Shell.Framework'', str ''LibGit2Sharp'',
                         str ''Newtonsoft.Json'']. occurs_in name partial_csproj_content) = False"
    by code_simp
  have m: "filter (\<lambda>name. \<not> occurs_in name partial_csproj_content)
                   [str ''Microsoft.VisualStudio.SDK'', str ''Microsoft.VSSDK.BuildTools'',
                    str ''Microsoft.VisualStudio.Shell.Framework'', str ''LibGit2Sharp'',
                    str ''Newtonsoft.Json''] = [str ''Newtonsoft.Json'']"
    by code_simp
  have s: "stdout partial_csproj_world = []"
    by (simp add: partial_csproj_world_def)
  have 1: "check_csproj_references csproj_file partial_csproj_world =
     (Inr False, partial_csproj_world\<lparr>stdout :=
        [cross_mark @ str '' Missing NuGet packages: '' @ str ''Newtonsoft.Json'']\<rparr>)"
    using csproj_check_passes_iff_all_names_occur[OF f]
    by (simp only: c m s if_False join.simps append_Nil)
  have g: "files good_world csproj_file =
      Some (Text (str ''Microsoft.VisualStudio.SDK Microsoft.VSSDK.BuildTools Microsoft.VisualStudio.Shell.Framework LibGit2Sharp Newtonsoft.Json''))"
    by (simp add: good_world_def good_files_def csproj_file_def base_path_def str_def)
  have c': "(\<forall>name \<in> set [str ''Microsoft.VisualStudio.SDK'', str ''Microsoft.VSSDK.BuildTools'',
                         str ''Microsoft.VisualStudio.Shell.Framework'', str ''LibGit2Sharp'',
                         str ''Newtonsoft.Json'']. occurs_in name (str ''Microsoft.VisualStudio.SDK Microsoft.VSSDK.BuildTools Microsoft.VisualStudio.Shell.Framework LibGit2Sharp Newtonsoft.Json'')) = True"
    by code_simp
  have 2: "fst (check_csproj_references csproj_file good_world) = Inr True"
    using csproj_check_passes_iff_all_names_occur[OF g]
    by (simp only: c' if_True fst_conv)
  from 1 2 show ?thesis by (rule conjI)
qed

text \<open>
  C5. On a manifest that can be read, the manifest check returns true exactly when, for each
  of the five element names, an opening bracket immediately followed by the name occurs in
  the content.
\<close>

theorem manifest_check_passes_iff_all_tags_occur:
  assumes "files w p = Some (Text content)"
  shows "check_vsix_manifest p w =
    (if \<forall>element \<in> set [str ''DisplayName'', str ''Description'', str ''Identity'',
                            str ''Installation'', str ''Assets''].
          occurs_in (str ''<'' @ element) content
     then (Inr True, w\<lparr>stdout := stdout w @
             [check_mark @ str '' VSIX manifest is properly configured'']\<rparr>)
     else (Inr False, w\<lparr>stdout := stdout w @
             [cross_mark @ str '' VSIX manifest missing elements: '' @
              join (str '', '')
                (filter (\<lambda>element. \<not> occurs_in (str ''<'' @ element) content)
                   [str ''DisplayName'', str ''Description'', str ''Identity'',
                    str ''Installation'', str ''Assets''])]\<rparr>))"
proof -
  have e: "(filter (\<lambda>element. \<not> py_in (str ''<'' @ element) content) required_elements = []) =
           (\<forall>element \<in> set required_elements. occurs_in (str ''<'' @ element) content)"
    by (simp add: filter_empty_conv occurs_in_py_in)
  show ?thesis
    unfolding check_vsix_manifest_text[OF assms] e
    by (simp only: occurs_in_py_in required_elements_def)
qed

theorem manifest_check_passes_iff_all_tags_occur_witness:
  "check_vsix_manifest manifest_file partial_manifest_world =
     (Inr False, partial_manifest_world\<lparr>stdout :=
        [cross_mark @ str '' VSIX manifest missing elements: '' @
         str ''Identity'' @ str '', '' @ str ''Assets'']\<rparr>)"
proof -
  have f: "files partial_manifest_world manifest_file = Some (Text partial_manifest_content)"
    by (simp add: partial_manifest_world_def)
  have c: "(\<forall>element \<in> set [str ''DisplayName'', str ''Description'', str ''Identity'',
                            str ''Installation'', str ''Assets''].
          occurs_in (str ''<'' @ element) partial_manifest_content) = False"
    by code_simp
  have m: "filter (\<lambda>element. \<not> occurs_in (str ''<'' @ element) partial_manifest_content)
                   [str ''DisplayName'', str ''Description'', str ''Identity'',
                    str ''Installation'', str ''Assets''] = [str ''Identity'', str ''Assets'']"
    by code_simp
  have s: "stdout partial_manifest_world = []"
    by (simp add: partial_manifest_world_def)
  show ?thesis
    using manifest_check_passes_iff_all_tags_occur[OF f]
    by (simp only: c m s if_False join.simps append_Nil)
qed

text \<open>
  C6. On a package file that can be read, the integration block succeeds (prints the
  success line and leaves the flag as it is) exactly when both \<open>ServiceContainer\<close> and
  \<open>InitializeAsync\<close> occur in the content. Otherwise, so also with only one of them, it
  prints the failure line and sets the flag to false, and the run does not pass.
\<close>

theorem integration_marker_needs_both:
  assumes "files w package_file = Some (Text content)"
  shows "service_container_integration acp w =
           (if occurs_in (str ''ServiceContainer'') content \<and>
               occurs_in (str ''InitializeAsync'') content
            then (Inr acp, w\<lparr>stdout := stdout w @
                    [check_mark @
                     str '' Service container is properly integrated in main package'']\<rparr>)
            else (Inr False, w\<lparr>stdout := stdout w @
                    [cross_mark @ str '' Service container integration incomplete'']\<rparr>)) \<and>
         (\<not> (occurs_in (str ''ServiceContainer'') content \<and>
              occurs_in (str ''InitializeAsync'') content) \<longrightarrow>
            fst (main w) \<noteq> Inr True \<and> exit_status w = 1)"
proof (intro conjI impI)
  show "service_container_integration acp w =
           (if occurs_in (str ''ServiceContainer'') content \<and>
               occurs_in (str ''InitializeAsync'') content
            then (Inr acp, w\<lparr>stdout := stdout w @
                    [check_mark @
                     str '' Service container is properly integrated in main package'']\<rparr>)
            else (Inr False, w\<lparr>stdout := stdout w @
                    [cross_mark @ str '' Service container integration incomplete'']\<rparr>))"
    by (simp only: service_container_integration_text[OF assms] occurs_in_py_in)
next
  assume n: "\<not> (occurs_in (str ''ServiceContainer'') content \<and>
              occurs_in (str ''InitializeAsync'') content)"
  have "fst (service_container_integration True w) \<noteq> Inr True"
    using n assms by (simp add: service_container_integration_fst_true occurs_in_py_in)
  then show m: "fst (main w) \<noteq> Inr True"
    by (simp add: main_fst_true)
  then show "exit_status w = 1"
    by (rule main_fst_not_true_cases)
qed

theorem integration_marker_needs_both_witness:
  "service_container_integration True one_marker_world =
     (Inr False, one_marker_world\<lparr>stdout :=
        [cross_mark @ str '' Service container integration incomplete'']\<rparr>) \<and>
   exit_status one_marker_world = 1"
proof -
  have f: "files one_marker_world package_file = Some (Text one_marker_content)"
    by (simp add: one_marker_world_def)
  have c: "(occurs_in (str ''ServiceContainer'') one_marker_content \<and>
            occurs_in (str ''InitializeAsync'') one_marker_content) = False"
    by code_simp
  have s: "stdout one_marker_world = []"
    by (simp add: one_marker_world_def)
  show ?thesis
    using integration_marker_needs_both[OF f, of True]
    by (simp only: c s if_False append_Nil not_False_eq_True simp_thms)
qed

text \<open>
  C7. Two runs on the same files print the same lines and end with the same exit status,
  whatever was on standard output before; in particular a second run right after the first.
\<close>

theorem runs_on_the_same_files_agree:
  assumes "files w = files w'"
  shows "emitted main w = emitted main w' \<and> fst (main w) = fst (main w') \<and>
         exit_status w = exit_status w' \<and>
         emitted main (snd (main w)) = emitted main w \<and>
         exit_status (snd (main w)) = exit_status w"
proof -
  have again: "files (snd (main w)) = files w"
    by (rule uniform_files[OF uniform_main])
  have "fst (main w) = fst (main w')"
    by (rule uniform_fst[OF uniform_main assms])
  moreover have "fst (main (snd (main w))) = fst (main w)"
    by (rule uniform_fst[OF uniform_main again])
  moreover have "emitted main w = emitted main w'"
    by (rule uniform_emitted[OF uniform_main assms])
  moreover have "emitted main (snd (main w)) = emitted main w"
    by (rule uniform_emitted[OF uniform_main again])
  ultimately show ?thesis by (simp add: exit_status_def)
qed

theorem runs_on_the_same_files_agree_witness:
  "files empty_world = files (snd (main empty_world)) \<and>
   emitted main empty_world = emitted main (snd (main empty_world)) \<and>
   exit_status empty_world = exit_status (snd (main empty_world))"
proof -
  have h: "files empty_world = files (snd (main empty_world))"
    by (rule sym) (rule uniform_files[OF uniform_main])
  from runs_on_the_same_files_agree[OF h] h show ?thesis
    by blast
qed

text \<open>
  C8. The files after a run are the files before it, and the same holds for each check on
  its own.
\<close>

theorem filesystem_is_left_unchanged:
  "files (snd (main w)) = files w \<and>
   files (snd (check_file_exists p d w)) = files w \<and>
   files (snd (check_interface_definition p n w)) = files w \<and>
   files (snd (check_csproj_references p w)) = files w \<and>
   files (snd (check_vsix_manifest p w)) = files w \<and>
   files (snd (service_container_integration acp w)) = files w"
  by (simp add: uniform_files[OF uniform_main] uniform_files[OF uniform_check_file_exists]
      uniform_files[OF uniform_check_interface_definition]
      uniform_files[OF uniform_check_csproj_references]
      uniform_files[OF uniform_check_vsix_manifest]
      uniform_files[OF uniform_service_container_integration])

theorem filesystem_is_left_unchanged_witness:
  "files (snd (main good_world)) = map_of good_files \<and>
   files (snd (main csproj_dir_world)) = [csproj_file \<mapsto> Directory]"
  using filesystem_is_left_unchanged[of good_world] filesystem_is_left_unchanged[of csproj_dir_world]
  by (simp add: good_world_def csproj_dir_world_def)

text \<open>
  C9 (amended). In every world without the main package file the run never returns true and
  the exit status is 1: the existence check for that path returns false, while the
  integration block prints nothing and leaves the flag as it is. If moreover each file the
  run opens is absent or readable text, \<open>main\<close> returns false.
\<close>

theorem missing_package_file_fails_the_run:
  assumes "files w package_file = None"
  shows "fst (main w) \<noteq> Inr True \<and> exit_status w = 1 \<and>
         (readable w \<longrightarrow> fst (main w) = Inr False) \<and>
         fst (check_file_exists package_file (str ''Main package class'') w) = Inr False \<and>
         service_container_integration acp w = (Inr acp, w)"
proof (intro conjI impI)
  have "(package_file, str ''Main package class'') \<in> set core_files"
    by (simp add: core_files_def package_file_def)
  then have "\<not> (\<forall>(p, d) \<in> set core_files. files w p \<noteq> None)"
    using assms by blast
  then show nt: "fst (main w) \<noteq> Inr True"
    by (simp only: main_fst_true simp_thms not_False_eq_True)
  then show "exit_status w = 1"
    by (rule main_fst_not_true_cases)
  show "fst (check_file_exists package_file (str ''Main package class'') w) = Inr False"
    by (simp add: check_file_exists_missing[OF assms])
  show "service_container_integration acp w = (Inr acp, w)"
    by (rule service_container_integration_missing[OF assms])
  assume "readable w"
  then obtain b where "fst (main w) = Inr b"
    using main_when_readable by blast
  with nt show "fst (main w) = Inr False"
    by (cases b) simp_all
qed

theorem missing_package_file_fails_the_run_witness:
  "files empty_world package_file = None \<and> readable empty_world \<and>
   fst (main empty_world) = Inr False \<and> exit_status empty_world = 1 \<and>
   service_container_integration True empty_world = (Inr True, empty_world)"
proof -
  have n: "files empty_world package_file = None"
    by (simp add: empty_world_def)
  from missing_package_file_fails_the_run[OF n, of True] n empty_world_readable
  show ?thesis by blast
qed

text \<open>
  C9 as stated fails: without the package file and with a manifest that may not be read,
  \<open>main\<close> does not return false, it ends with the exception of the manifest check.
\<close>

theorem missing_package_file_and_locked_manifest:
  "files manifest_locked_world package_file = None \<and>
   fst (main manifest_locked_world) = Inl PermissionError \<and>
   fst (main manifest_locked_world) \<noteq> Inr False"
proof -
  have m: "files manifest_locked_world manifest_file = Some NoReadPermission"
    by (simp add: manifest_locked_world_def)
  have c: "files manifest_locked_world csproj_file = None"
    by (simp add: manifest_locked_world_def csproj_file_def manifest_file_def base_path_def
        str_def)
  have k: "files manifest_locked_world package_file = None"
    by (simp add: manifest_locked_world_def package_file_def manifest_file_def base_path_def
        str_def)
  let ?a1 = "\<forall>(p, d) \<in> set core_files. files manifest_locked_world p \<noteq> None"
  obtain a2 where a2: "fst (interfaces_loop interfaces ?a1 manifest_locked_world) = Inr a2"
    using interfaces_loop_all_missing[OF manifest_locked_world_interfaces, of ?a1] by blast
  have p: "fst (project_configuration a2 manifest_locked_world) = Inl PermissionError"
    by (simp add: project_configuration_fst check_csproj_references_missing[OF c]
        check_vsix_manifest_locked[OF m])
  have r: "fst (main manifest_locked_world) = Inl PermissionError"
    unfolding main_fst a2 by (simp add: p)
  from k r show ?thesis by simp
qed

text \<open>
  C10. The interface check for a name \<open>N\<close> without pattern characters returns true on
  any content in which \<open>public\<close>, whitespace, \<open>interface\<close>, whitespace and then
  \<open>N\<close> occur, whatever follows \<open>N\<close>: the declaration of a longer interface whose name
  starts with \<open>N\<close> is accepted.
\<close>

theorem interface_check_has_no_trailing_boundary:
  assumes "files w p =
             Some (Text (pre @ str ''public'' @ ws1 @ str ''interface'' @ ws2 @ N @ rest @ post))"
    and "ws1 \<noteq> []" "\<forall>c\<in>set ws1. isspace c" "ws2 \<noteq> []" "\<forall>c\<in>set ws2. isspace c"
    and "\<not> list_ex re_special N"
  shows "check_interface_definition p N w =
           (Inr True, w\<lparr>stdout := stdout w @
              [check_mark @ str '' Interface '' @ N @ str '': Properly defined'']\<rparr>)"
proof -
  have "re_search
          (map Lit (str ''public'') @ [Spaces] @ map Lit (str ''interface'') @ [Spaces] @ map Lit N)
          (pre @ str ''public'' @ ws1 @ str ''interface'' @ ws2 @ N @ (rest @ post))"
    by (rule interface_pattern_matches[OF assms(2-5)])
  then show ?thesis
    using assms(6)
    by (simp add: check_interface_definition_text[OF assms(1)] interface_pattern_def)
qed

theorem interface_check_has_no_trailing_boundary_witness:
  "check_interface_definition (str ''IFoo.cs'') (str ''IFoo'') longer_interface_world =
     (Inr True, longer_interface_world\<lparr>stdout :=
        [check_mark @ str '' Interface IFoo: Properly defined'']\<rparr>)"
proof -
  have f: "files longer_interface_world (str ''IFoo.cs'') =
      Some (Text ((str ''// x'' @ newline) @ str ''public'' @ newline @ str ''interface'' @
                  str ''  '' @ str ''IFoo'' @ str ''Bar'' @ str '' { }''))"
    by (simp add: longer_interface_world_def)
  have s1: "newline \<noteq> []" "\<forall>c\<in>set newline. isspace c"
    by (simp_all add: newline_def isspace_def)
  have s2: "str ''  '' \<noteq> []" "\<forall>c\<in>set (str ''  ''). isspace c"
    by (simp_all add: str_def isspace_def)
  have l: "\<not> list_ex re_special (str ''IFoo'')"
    by (simp add: str_def re_special_def)
  show ?thesis
    using interface_check_has_no_trailing_boundary[OF f s1 s2 l]
    by (simp add: longer_interface_world_def str_def)
qed

end
